theory Spec2Isabelle
  imports Main
begin

section \<open>Python values, strings and errors\<close>

text \<open>
  Python strings are modelled as \<open>string\<close>; one \<open>char\<close> stands for one code point
  below 256. The values that reach \<open>Config.get\<close> are strings (from the environment
  and from the stores), \<open>None\<close> (from \<open>RepositoryEmpty\<close>) and caller-supplied defaults;
  booleans and integers are the defaults the test-suite uses.
\<close>

datatype pyval = PNone | PStr string | PBool bool | PInt int

datatype error =
    UndefinedValueError string
  | ValueError string
  | KeyError string
  | NoSectionError string
  | NoOptionError string string
  | RecursionError
  | OSError string
  | AssertionError

text \<open>The default argument: the \<open>undefined\<close> instance of class \<open>Undefined\<close>, or a value.\<close>

datatype default = Undefined | Default pyval

text \<open>The cast argument: the builtin \<open>bool\<close> (tested with \<open>cast is bool\<close>) or a callable.\<close>

datatype cast = Bool | Callable "pyval \<Rightarrow> error + pyval"

definition squote :: char where
  "squote = CHR 0x27"

definition dquote :: char where
  "dquote = CHR 0x22"

definition backslash :: char where
  "backslash = CHR 0x5C"

subsection \<open>\<open>str\<close>, \<open>str.lower\<close>, \<open>str.strip\<close>\<close>

definition digit_char :: "nat \<Rightarrow> char" where
  "digit_char d = char_of (48 + d)"

fun str_nat :: "nat \<Rightarrow> string" where
  "str_nat n = (if n < 10 then [digit_char n] else str_nat (n div 10) @ [digit_char (n mod 10)])"

declare str_nat.simps [simp del]

definition str_int :: "int \<Rightarrow> string" where
  "str_int i = (if i < 0 then CHR ''-'' # str_nat (nat (- i)) else str_nat (nat i))"

fun str :: "pyval \<Rightarrow> string" where
  "str PNone = ''None''"
| "str (PStr s) = s"
| "str (PBool b) = (if b then ''True'' else ''False'')"
| "str (PInt i) = str_int i"

text \<open>
  \<open>str.lower\<close> on code points below 256: \<open>A\<close>..\<open>Z\<close> and the Latin-1 capitals
  (192..222 without the multiplication sign 215) move up by 32.
\<close>

definition lower_char :: "char \<Rightarrow> char" where
  "lower_char c =
     (let n = (of_char c :: nat)
      in if (65 \<le> n \<and> n \<le> 90) \<or> (192 \<le> n \<and> n \<le> 222 \<and> n \<noteq> 215)
         then char_of (n + 32) else c)"

definition lower :: "string \<Rightarrow> string" where
  "lower s = map lower_char s"

text \<open>\<open>s.strip(chars)\<close>: every leading and every trailing character of \<open>chars\<close> goes.\<close>

definition lstrip_chars :: "string \<Rightarrow> string \<Rightarrow> string" where
  "lstrip_chars chars s = dropWhile (\<lambda>c. c \<in> set chars) s"

definition rstrip_chars :: "string \<Rightarrow> string \<Rightarrow> string" where
  "rstrip_chars chars s = rev (dropWhile (\<lambda>c. c \<in> set chars) (rev s))"

definition strip_chars :: "string \<Rightarrow> string \<Rightarrow> string" where
  "strip_chars chars s = rstrip_chars chars (lstrip_chars chars s)"

text \<open>
  \<open>s.strip()\<close> removes what \<open>str.isspace\<close> accepts; below 256 these are
  9..13, 28..32, 133 and 160.
\<close>

definition isspace_chars :: string where
  "isspace_chars =
     [CHR 0x09, CHR 0x0A, CHR 0x0B, CHR 0x0C, CHR 0x0D,
      CHR 0x1C, CHR 0x1D, CHR 0x1E, CHR 0x1F, CHR 0x20, CHR 0x85, CHR 0xA0]"

definition strip_space :: "string \<Rightarrow> string" where
  "strip_space s = strip_chars isspace_chars s"

text \<open>\<open>string.whitespace\<close>, the default \<open>strip\<close> argument of \<open>Csv\<close>.\<close>

definition string_whitespace :: string where
  "string_whitespace = [CHR 0x20, CHR 0x09, CHR 0x0A, CHR 0x0D, CHR 0x0B, CHR 0x0C]"

text \<open>\<open>key in d\<close> for a dictionary.\<close>

definition has_key :: "('k \<rightharpoonup> 'v) \<Rightarrow> 'k \<Rightarrow> bool" where
  "has_key d key = (case d key of None \<Rightarrow> False | Some _ \<Rightarrow> True)"

section \<open>The boolean cast\<close>

text \<open>
  Modelled from the spec: \<open>distutils.util.strtobool\<close> belongs to Python's standard
  library and is not under src/. It lowers its argument and looks it up in the token table
  of the specification (true: y, yes, t, true, on, 1; false: n, no, f, false, off, 0),
  raising \<open>ValueError\<close> for anything else.
\<close>

definition strtobool :: "string \<Rightarrow> error + int" where
  "strtobool val =
     (let val = lower val
      in if val \<in> set [''y'', ''yes'', ''t'', ''true'', ''on'', ''1''] then Inr 1
         else if val \<in> set [''n'', ''no'', ''f'', ''false'', ''off'', ''0''] then Inr 0
         else Inl (ValueError (''invalid truth value '' @ val)))"

text \<open>\<open>bool\<close> of a string and of an integer.\<close>

definition bool_str :: "string \<Rightarrow> bool" where
  "bool_str s = (s \<noteq> [])"

definition bool_int :: "int \<Rightarrow> bool" where
  "bool_int i = (i \<noteq> 0)"

text \<open>\<open>Config._cast_boolean\<close>.\<close>

definition cast_boolean :: "pyval \<Rightarrow> error + pyval" where
  "cast_boolean v =
     (let value = str v
      in if value = '''' then Inr (PBool (bool_str value))
         else (case strtobool value of
                 Inl e \<Rightarrow> Inl e
               | Inr i \<Rightarrow> Inr (PBool (bool_int i))))"

text \<open>\<open>_cast_do_nothing\<close>, the default cast.\<close>

definition cast_do_nothing :: cast where
  "cast_do_nothing = Callable Inr"

section \<open>The stores\<close>

text \<open>
  Modelled from the spec: \<open>configparser.ConfigParser\<close> belongs to Python's standard
  library and is not under src/. The parser holds its sections and its default section as
  dictionaries keyed by the lowered option name; \<open>has_option\<close> and \<open>get\<close> follow the
  library for a section name that is neither empty nor the default section's, and the
  interpolation applied by \<open>get\<close> on a hit (\<open>%(key)s\<close>, \<open>%%\<close>) is a component of the
  parser.
\<close>

record ConfigParser =
  sections :: "string \<rightharpoonup> (string \<rightharpoonup> string)"
  defaults :: "string \<rightharpoonup> string"
  before_get :: "string \<Rightarrow> string \<Rightarrow> string \<Rightarrow> (string \<rightharpoonup> string) \<Rightarrow> error + string"

definition optionxform :: "string \<Rightarrow> string" where
  "optionxform option = lower option"

definition has_option :: "ConfigParser \<Rightarrow> string \<Rightarrow> string \<Rightarrow> bool" where
  "has_option p section option =
     (case sections p section of
        None \<Rightarrow> False
      | Some sd \<Rightarrow>
          (let option = optionxform option
           in has_key sd option \<or> has_key (defaults p) option))"

definition parser_get :: "ConfigParser \<Rightarrow> string \<Rightarrow> string \<Rightarrow> error + string" where
  "parser_get p section option =
     (case sections p section of
        None \<Rightarrow> Inl (NoSectionError section)
      | Some sd \<Rightarrow>
          (let d = defaults p ++ sd; option = optionxform option
           in case d option of
                None \<Rightarrow> Inl (NoOptionError option section)
              | Some v \<Rightarrow> before_get p section option v d))"

definition SECTION :: string where
  "SECTION = ''settings''"

text \<open>
  The three repository classes. \<open>RepositoryIni\<close> holds its parser, \<open>RepositoryEnv\<close>
  its \<open>data\<close> dictionary.
\<close>

datatype repository =
    RepositoryEmpty
  | RepositoryIni ConfigParser
  | RepositoryEnv "string \<rightharpoonup> string"

type_synonym environ = "string \<rightharpoonup> string"

text \<open>\<open>__contains__\<close> of each class.\<close>

fun contains :: "environ \<Rightarrow> repository \<Rightarrow> string \<Rightarrow> bool" where
  "contains environ RepositoryEmpty key = False"
| "contains environ (RepositoryIni parser) key =
     (has_key environ key \<or> has_option parser SECTION key)"
| "contains environ (RepositoryEnv data) key =
     (has_key environ key \<or> has_key data key)"

text \<open>\<open>__getitem__\<close> of each class.\<close>

fun getitem :: "repository \<Rightarrow> string \<Rightarrow> error + pyval" where
  "getitem RepositoryEmpty key = Inr PNone"
| "getitem (RepositoryIni parser) key =
     (case parser_get parser SECTION key of
        Inl e \<Rightarrow> Inl e
      | Inr v \<Rightarrow> Inr (PStr v))"
| "getitem (RepositoryEnv data) key =
     (case data key of
        None \<Rightarrow> Inl (KeyError key)
      | Some v \<Rightarrow> Inr (PStr v))"

section \<open>\<open>Config\<close>\<close>

record Config =
  repository :: repository

definition call_cast :: "cast \<Rightarrow> pyval \<Rightarrow> error + pyval" where
  "call_cast c value =
     (case c of
        Bool \<Rightarrow> cast_boolean value
      | Callable f \<Rightarrow> f value)"

text \<open>\<open>Config.get\<close>; \<open>Config.__call__\<close> is the same function.\<close>

definition get :: "environ \<Rightarrow> Config \<Rightarrow> string \<Rightarrow> default \<Rightarrow> cast \<Rightarrow> error + pyval" where
  "get environ self option dflt c =
     (case (case environ option of
              Some v \<Rightarrow> Inr (PStr v)
            | None \<Rightarrow>
                if contains environ (repository self) option
                then getitem (repository self) option
                else (case dflt of
                        Undefined \<Rightarrow>
                          Inl (UndefinedValueError
                            (option @ '' not found. Declare it as envvar or define a default value.''))
                      | Default d \<Rightarrow> Inr d)) of
        Inl e \<Rightarrow> Inl e
      | Inr value \<Rightarrow> call_cast c value)"

section \<open>\<open>RepositoryEnv.__init__\<close>\<close>

text \<open>\<open>line.split('=', 1)\<close> for a line that holds an \<open>=\<close>: the cut is at the first one.\<close>

definition split_first :: "char \<Rightarrow> string \<Rightarrow> string \<times> string" where
  "split_first sep s = (takeWhile (\<lambda>c. c \<noteq> sep) s, drop 1 (dropWhile (\<lambda>c. c \<noteq> sep) s))"

definition startswith :: "string \<Rightarrow> string \<Rightarrow> bool" where
  "startswith s pre = (take (length pre) s = pre)"

text \<open>
  The loop over the lines of the file, \<open>data\<close> being the dictionary built so far.
  \<open>v[0]\<close> and \<open>v[-1]\<close> are read only behind \<open>len(v) >= 2\<close>.
\<close>

fun read_env :: "(string \<rightharpoonup> string) \<Rightarrow> string list \<Rightarrow> (string \<rightharpoonup> string)" where
  "read_env data [] = data"
| "read_env data (line # file) =
     (let line = strip_space line
      in if line = [] \<or> startswith line ''#'' \<or> CHR ''='' \<notin> set line
         then read_env data file
         else
           (let (k, v) = split_first CHR ''='' line;
                k = strip_space k;
                v = strip_space v;
                v = (if length v \<ge> 2 \<and>
                        ((hd v = squote \<and> last v = squote) \<or> (hd v = dquote \<and> last v = dquote))
                     then strip_chars [squote, dquote] v
                     else v)
            in read_env (data(k \<mapsto> v)) file))"

section \<open>The host: environment, file system, interpreter\<close>

text \<open>
  What the code reads from outside: \<open>os.environ\<close>, \<open>os.path.isfile\<close>, \<open>os.getcwd\<close>
  (which fails when the working directory is gone), the lines \<open>open\<close> yields for a file
  name (or the error it raises), the parser state \<open>ConfigParser.readfp\<close> builds from such
  lines, the directory \<open>_caller_path\<close> finds in the caller's frame, and the number of
  nested calls the interpreter allows before it raises \<open>RecursionError\<close>.
\<close>

record host =
  os_environ :: environ
  isfile :: "string \<Rightarrow> bool"
  getcwd :: "error + string"
  open_file :: "string \<Rightarrow> error + string list"
  readfp :: "string list \<Rightarrow> error + ConfigParser"
  caller_path :: string
  recursion_limit :: nat

definition RepositoryEmpty_init :: "host \<Rightarrow> string \<Rightarrow> error + repository" where
  "RepositoryEmpty_init h source = Inr RepositoryEmpty"

definition RepositoryIni_init :: "host \<Rightarrow> string \<Rightarrow> error + repository" where
  "RepositoryIni_init h source =
     (case open_file h source of
        Inl e \<Rightarrow> Inl e
      | Inr file \<Rightarrow>
          (case readfp h file of
             Inl e \<Rightarrow> Inl e
           | Inr parser \<Rightarrow> Inr (RepositoryIni parser)))"

definition RepositoryEnv_init :: "host \<Rightarrow> string \<Rightarrow> error + repository" where
  "RepositoryEnv_init h source =
     (case open_file h source of
        Inl e \<Rightarrow> Inl e
      | Inr file \<Rightarrow> Inr (RepositoryEnv (read_env Map.empty file)))"

section \<open>\<open>os.path\<close>\<close>

text \<open>
  Modelled from the spec: \<open>os.path\<close> (here \<open>posixpath\<close>) belongs to Python's standard
  library and is not under src/. \<open>join\<close>, \<open>dirname\<close>, \<open>basename\<close>, \<open>normpath\<close>
  and \<open>abspath\<close> follow the library on strings; \<open>os.sep\<close> is \<open>/\<close>.
\<close>

definition sep :: char where
  "sep = CHR ''/''"

definition join :: "string \<Rightarrow> string \<Rightarrow> string" where
  "join a b =
     (if startswith b [sep] then b
      else if a = [] \<or> last a = sep then a @ b
      else a @ [sep] @ b)"

text \<open>\<open>p[:i]\<close> and \<open>p[i:]\<close> for \<open>i = p.rfind('/') + 1\<close>.\<close>

definition upto_last_sep :: "string \<Rightarrow> string" where
  "upto_last_sep p = rev (dropWhile (\<lambda>c. c \<noteq> sep) (rev p))"

definition after_last_sep :: "string \<Rightarrow> string" where
  "after_last_sep p = rev (takeWhile (\<lambda>c. c \<noteq> sep) (rev p))"

definition dirname :: "string \<Rightarrow> string" where
  "dirname p =
     (let head = upto_last_sep p
      in if head \<noteq> [] \<and> head \<noteq> replicate (length head) sep
         then rstrip_chars [sep] head
         else head)"

definition basename :: "string \<Rightarrow> string" where
  "basename p = after_last_sep p"

text \<open>\<open>s.split(sep)\<close>.\<close>

fun split_on :: "char \<Rightarrow> string \<Rightarrow> string list" where
  "split_on d [] = [[]]"
| "split_on d (c # cs) =
     (if c = d then [] # split_on d cs
      else (case split_on d cs of
              [] \<Rightarrow> [[c]]
            | w # ws \<Rightarrow> (c # w) # ws))"

text \<open>The loop of \<open>normpath\<close> over the components.\<close>

fun norm_comps :: "nat \<Rightarrow> string list \<Rightarrow> string list \<Rightarrow> string list" where
  "norm_comps initial_slashes new_comps [] = new_comps"
| "norm_comps initial_slashes new_comps (cmp # comps) =
     (if cmp = [] \<or> cmp = ''.'' then norm_comps initial_slashes new_comps comps
      else if cmp \<noteq> ''..'' \<or> (initial_slashes = 0 \<and> new_comps = [])
               \<or> (new_comps \<noteq> [] \<and> last new_comps = ''..'')
        then norm_comps initial_slashes (new_comps @ [cmp]) comps
      else if new_comps \<noteq> [] then norm_comps initial_slashes (butlast new_comps) comps
      else norm_comps initial_slashes new_comps comps)"

fun sep_join :: "string list \<Rightarrow> string" where
  "sep_join [] = []"
| "sep_join [c] = c"
| "sep_join (c # cs) = c @ [sep] @ sep_join cs"

definition normpath :: "string \<Rightarrow> string" where
  "normpath path =
     (if path = [] then ''.''
      else
        (let initial_slashes =
               (if startswith path [sep]
                then (if startswith path [sep, sep] \<and> \<not> startswith path [sep, sep, sep]
                      then 2 else 1)
                else (0::nat));
             comps = norm_comps initial_slashes [] (split_on sep path);
             path = replicate initial_slashes sep @ sep_join comps
         in if path = [] then ''.'' else path))"

definition isabs :: "string \<Rightarrow> bool" where
  "isabs s = startswith s [sep]"

definition abspath :: "host \<Rightarrow> string \<Rightarrow> error + string" where
  "abspath h path =
     (if \<not> isabs path
      then (case getcwd h of
              Inl e \<Rightarrow> Inl e
            | Inr cwd \<Rightarrow> Inr (normpath (join cwd path)))
      else Inr (normpath path))"

section \<open>\<open>AutoConfig\<close>\<close>

datatype repository_class = Cls_RepositoryEmpty | Cls_RepositoryIni | Cls_RepositoryEnv

definition SUPPORTED :: "(string \<times> repository_class) list" where
  "SUPPORTED = [(''settings.ini'', Cls_RepositoryIni), (''.env'', Cls_RepositoryEnv)]"

record AutoConfig =
  search_path :: "string option"
  config :: "Config option"

text \<open>The \<open>for configfile in self.SUPPORTED\<close> loop of \<open>_find_file\<close>.\<close>

fun find_in :: "(string \<Rightarrow> bool) \<Rightarrow> string \<Rightarrow> string list \<Rightarrow> string option" where
  "find_in isf path [] = None"
| "find_in isf path (configfile # rest) =
     (let filename = join path configfile
      in if isf filename then Some filename else find_in isf path rest)"

text \<open>
  \<open>AutoConfig._find_file\<close>. The first argument counts the nested calls the interpreter
  still allows: the recursion has no other bound, and Python ends it with
  \<open>RecursionError\<close>. \<open>os.path.abspath(os.sep)\<close> is \<open>normpath [sep]\<close>.
\<close>

fun find_file :: "nat \<Rightarrow> (string \<Rightarrow> bool) \<Rightarrow> string \<Rightarrow> error + string" where
  "find_file 0 isf path = Inl RecursionError"
| "find_file (Suc depth) isf path =
     (case find_in isf path (map fst SUPPORTED) of
        Some filename \<Rightarrow> Inr filename
      | None \<Rightarrow>
          (let parent = dirname path
           in if parent \<noteq> [] \<and> parent \<noteq> normpath [sep]
              then find_file depth isf parent
              else Inr []))"

definition construct :: "repository_class \<Rightarrow> host \<Rightarrow> string \<Rightarrow> error + repository" where
  "construct cls h source =
     (case cls of
        Cls_RepositoryEmpty \<Rightarrow> RepositoryEmpty_init h source
      | Cls_RepositoryIni \<Rightarrow> RepositoryIni_init h source
      | Cls_RepositoryEnv \<Rightarrow> RepositoryEnv_init h source)"

text \<open>
  \<open>AutoConfig._load\<close>. \<open>find_file_abspath\<close> is the body of its \<open>try\<close>,
  \<open>self._find_file(os.path.abspath(path))\<close>; \<open>except Exception\<close> turns every error of
  it into the empty file name. The constructor of the repository runs outside the
  \<open>try\<close>.
\<close>

definition find_file_abspath :: "host \<Rightarrow> string \<Rightarrow> error + string" where
  "find_file_abspath h path =
     (case abspath h path of
        Inl e \<Rightarrow> Inl e
      | Inr p \<Rightarrow> find_file (recursion_limit h) (isfile h) p)"

definition load :: "host \<Rightarrow> AutoConfig \<Rightarrow> string \<Rightarrow> error + AutoConfig" where
  "load h self path =
     (let filename =
            (case find_file_abspath h path of
               Inl e \<Rightarrow> []
             | Inr f \<Rightarrow> f);
          Repository =
            (case map_of SUPPORTED (basename filename) of
               None \<Rightarrow> Cls_RepositoryEmpty
             | Some cls \<Rightarrow> cls)
      in case construct Repository h filename of
           Inl e \<Rightarrow> Inl e
         | Inr repo \<Rightarrow> Inr (self\<lparr>config := Some \<lparr>repository = repo\<rparr>\<rparr>))"

text \<open>
  \<open>AutoConfig.__call__\<close> returns the result of the lookup and the object as the call
  leaves it. \<open>start_path\<close> is \<open>self.search_path or self._caller_path()\<close>, which takes
  the caller's path for \<open>None\<close> and for the empty string.
\<close>

definition start_path :: "host \<Rightarrow> AutoConfig \<Rightarrow> string" where
  "start_path h self =
     (case search_path self of
        None \<Rightarrow> caller_path h
      | Some sp \<Rightarrow> if sp = [] then caller_path h else sp)"

definition AutoConfig_call ::
  "host \<Rightarrow> AutoConfig \<Rightarrow> string \<Rightarrow> default \<Rightarrow> cast \<Rightarrow> (error + pyval) \<times> AutoConfig" where
  "AutoConfig_call h self option dflt c =
     (case config self of
        Some cfg \<Rightarrow> (get (os_environ h) cfg option dflt c, self)
      | None \<Rightarrow>
          (case load h self (start_path h self) of
             Inl e \<Rightarrow> (Inl e, self)
           | Inr self' \<Rightarrow>
               (case config self' of
                  None \<Rightarrow> (Inl AssertionError, self')
                | Some cfg \<Rightarrow> (get (os_environ h) cfg option dflt c, self'))))"

section \<open>\<open>shlex\<close>\<close>

text \<open>
  Modelled from the spec: \<open>shlex\<close> belongs to Python's standard library and is not under
  src/. The model is the library's \<open>read_token\<close> for a lexer built by
  \<open>shlex(value, posix=True)\<close> with \<open>whitespace_split = True\<close>, the configuration
  \<open>Csv.__call__\<close> sets: no punctuation characters, no pushback, no file inclusion, so
  \<open>get_token\<close> is \<open>read_token\<close> and end of input is \<open>None\<close>. Only \<open>whitespace\<close>
  varies (it is the delimiter). The lexer's state is \<open>None\<close>, a blank, \<open>a\<close>, a quote
  or an escape character.
\<close>

datatype lexstate = St_None | St_space | St_a | St_quote char | St_escape char

record shlex =
  instream :: string
  whitespace :: string
  state :: lexstate

definition commenters :: string where
  "commenters = ''#''"

definition quotes :: string where
  "quotes = [squote, dquote]"

definition escape :: string where
  "escape = [backslash]"

definition escapedquotes :: string where
  "escapedquotes = [dquote]"

definition wordchars :: string where
  "wordchars =
     ''abcdfeghijklmnopqrstuvwxyzABCDEFGHIJKLMNOPQRSTUVWXYZ0123456789_'' @
     [
      CHR 0xDF, CHR 0xE0, CHR 0xE1, CHR 0xE2, CHR 0xE3, CHR 0xE4, CHR 0xE5, CHR 0xE6,
      CHR 0xE7, CHR 0xE8, CHR 0xE9, CHR 0xEA, CHR 0xEB, CHR 0xEC, CHR 0xED, CHR 0xEE,
      CHR 0xEF, CHR 0xF0, CHR 0xF1, CHR 0xF2, CHR 0xF3, CHR 0xF4, CHR 0xF5, CHR 0xF6,
      CHR 0xF8, CHR 0xF9, CHR 0xFA, CHR 0xFB, CHR 0xFC, CHR 0xFD, CHR 0xFE, CHR 0xFF,
      CHR 0xC0, CHR 0xC1, CHR 0xC2, CHR 0xC3, CHR 0xC4, CHR 0xC5, CHR 0xC6, CHR 0xC7,
      CHR 0xC8, CHR 0xC9, CHR 0xCA, CHR 0xCB, CHR 0xCC, CHR 0xCD, CHR 0xCE, CHR 0xCF,
      CHR 0xD0, CHR 0xD1, CHR 0xD2, CHR 0xD3, CHR 0xD4, CHR 0xD5, CHR 0xD6, CHR 0xD8,
      CHR 0xD9, CHR 0xDA, CHR 0xDB, CHR 0xDC, CHR 0xDD, CHR 0xDE]"

text \<open>What \<open>instream.readline()\<close> leaves: the input after the next newline.\<close>

fun readline :: "string \<Rightarrow> string" where
  "readline [] = []"
| "readline (c # cs) = (if c = CHR 0x0A then cs else readline cs)"

lemma length_readline [termination_simp]: "length (readline s) \<le> length s"
  by (induction s) auto

fun in_quotes :: "lexstate \<Rightarrow> bool" where
  "in_quotes (St_quote q) = (q \<in> set quotes)"
| "in_quotes _ = False"

text \<open>
  The \<open>while True\<close> loop of \<open>read_token\<close>. Arguments: the whitespace, the state, the
  locals \<open>quoted\<close> and \<open>escapedstate\<close>, the token so far and the unread input.
  It returns the token, \<open>quoted\<close>, the state and the input at the \<open>break\<close>.
\<close>

function (sequential) read_token_loop ::
  "string \<Rightarrow> lexstate \<Rightarrow> bool \<Rightarrow> lexstate \<Rightarrow> string \<Rightarrow> string
     \<Rightarrow> error + (string \<times> bool \<times> lexstate \<times> string)" where
  "read_token_loop ws St_None quoted es token ins = Inr ([], quoted, St_None, drop 1 ins)"
| "read_token_loop ws St_space quoted es token [] = Inr (token, quoted, St_None, [])"
| "read_token_loop ws St_space quoted es token (nextchar # ins) =
     (if nextchar \<in> set ws then
        (if token \<noteq> [] \<or> quoted then Inr (token, quoted, St_space, ins)
         else read_token_loop ws St_space quoted es token ins)
      else if nextchar \<in> set commenters then
        read_token_loop ws St_space quoted es token (readline ins)
      else if nextchar \<in> set escape then
        read_token_loop ws (St_escape nextchar) quoted St_a token ins
      else if nextchar \<in> set wordchars then
        read_token_loop ws St_a quoted es [nextchar] ins
      else if nextchar \<in> set quotes then
        read_token_loop ws (St_quote nextchar) quoted es token ins
      else read_token_loop ws St_a quoted es [nextchar] ins)"
| "read_token_loop ws (St_quote q) quoted es token [] = Inl (ValueError ''No closing quotation'')"
| "read_token_loop ws (St_quote q) quoted es token (nextchar # ins) =
     (if nextchar = q then read_token_loop ws St_a True es token ins
      else if nextchar \<in> set escape \<and> q \<in> set escapedquotes then
        read_token_loop ws (St_escape nextchar) True (St_quote q) token ins
      else read_token_loop ws (St_quote q) True es (token @ [nextchar]) ins)"
| "read_token_loop ws (St_escape e) quoted es token [] = Inl (ValueError ''No escaped character'')"
| "read_token_loop ws (St_escape e) quoted es token (nextchar # ins) =
     (let token = (if in_quotes es \<and> nextchar \<noteq> e \<and> es \<noteq> St_quote nextchar
                   then token @ [e] else token)
      in read_token_loop ws es quoted es (token @ [nextchar]) ins)"
| "read_token_loop ws St_a quoted es token [] = Inr (token, quoted, St_None, [])"
| "read_token_loop ws St_a quoted es token (nextchar # ins) =
     (if nextchar \<in> set ws then
        (if token \<noteq> [] \<or> quoted then Inr (token, quoted, St_space, ins)
         else read_token_loop ws St_space quoted es token ins)
      else if nextchar \<in> set commenters then
        (if token \<noteq> [] \<or> quoted then Inr (token, quoted, St_space, readline ins)
         else read_token_loop ws St_space quoted es token (readline ins))
      else if nextchar \<in> set quotes then
        read_token_loop ws (St_quote nextchar) quoted es token ins
      else if nextchar \<in> set escape then
        read_token_loop ws (St_escape nextchar) quoted St_a token ins
      else read_token_loop ws St_a quoted es (token @ [nextchar]) ins)"
  by pat_completeness auto

termination
  by (relation "measure (\<lambda>(ws, st, quoted, es, token, ins). length ins)")
     (auto simp: le_imp_less_Suc length_readline)

text \<open>
  \<open>read_token\<close>: a token that is empty and was not quoted is \<open>None\<close>, the end of the
  input. \<open>self.token\<close> is empty whenever \<open>read_token\<close> starts.
\<close>

definition read_token :: "shlex \<Rightarrow> error + (string option \<times> shlex)" where
  "read_token self =
     (case read_token_loop (whitespace self) (state self) False St_space [] (instream self) of
        Inl e \<Rightarrow> Inl e
      | Inr (result, quoted, st, ins) \<Rightarrow>
          Inr (if \<not> quoted \<and> result = [] then None else Some result,
               self\<lparr>state := st, instream := ins\<rparr>))"

text \<open>\<open>shlex(value, posix=True)\<close>: the lexer starts in the blank state.\<close>

definition shlex_init :: "string \<Rightarrow> shlex" where
  "shlex_init value = \<lparr>instream = value, whitespace = [CHR 0x20, CHR 0x09, CHR 0x0D, CHR 0x0A],
     state = St_space\<rparr>"

section \<open>\<open>Csv\<close>\<close>

record ('a, 'b) Csv =
  cast :: "string \<Rightarrow> error + 'a"
  delimiter :: string
  strip :: string
  post_process :: "'a list \<Rightarrow> error + 'b"

text \<open>\<open>Csv()\<close>: \<open>str\<close> on a string and \<open>list\<close> on the generated items change nothing.\<close>

definition Csv_init :: "(string, string list) Csv" where
  "Csv_init = \<lparr>cast = Inr, delimiter = '','', strip = string_whitespace, post_process = Inr\<rparr>"

text \<open>
  The generator \<open>transform(s) for s in splitter\<close>, run to its end: each token is read,
  stripped and cast before the next one is read, and the first error ends the run.
\<close>

function generate :: "(string \<Rightarrow> error + 'a) \<Rightarrow> string \<Rightarrow> shlex \<Rightarrow> error + 'a list" where
  "generate cst strp splitter =
     (case read_token splitter of
        Inl e \<Rightarrow> Inl e
      | Inr (None, splitter') \<Rightarrow> Inr []
      | Inr (Some s, splitter') \<Rightarrow>
          (case cst (strip_chars strp s) of
             Inl e \<Rightarrow> Inl e
           | Inr x \<Rightarrow>
               (case generate cst strp splitter' of
                  Inl e \<Rightarrow> Inl e
                | Inr xs \<Rightarrow> Inr (x # xs))))"
  by pat_completeness auto

text \<open>\<open>Csv.__call__\<close>; \<open>post_process\<close> consumes the whole generator.\<close>

definition Csv_call :: "('a, 'b) Csv \<Rightarrow> string \<Rightarrow> error + 'b" where
  "Csv_call self value =
     (let splitter = shlex_init value;
          splitter = splitter\<lparr>whitespace := delimiter self\<rparr>
      in case generate (cast self) (strip self) splitter of
           Inl e \<Rightarrow> Inl e
         | Inr xs \<Rightarrow> post_process self xs)"

section \<open>Reference definitions\<close>

text \<open>
  The boolean token table as the specification words it: the empty string and the false
  tokens give false, the true tokens give true, after lowering; anything else is a
  \<open>ValueError\<close>.
\<close>

definition false_tokens :: "string list" where
  "false_tokens = [''n'', ''no'', ''f'', ''false'', ''off'', ''0'']"

definition true_tokens :: "string list" where
  "true_tokens = [''y'', ''yes'', ''t'', ''true'', ''on'', ''1'']"

definition boolean_table :: "string \<Rightarrow> error + pyval" where
  "boolean_table s =
     (if s = [] \<or> lower s \<in> set false_tokens then Inr (PBool False)
      else if lower s \<in> set true_tokens then Inr (PBool True)
      else Inl (ValueError (''invalid truth value '' @ lower s)))"

text \<open>
  A host whose working directory has been removed (\<open>os.getcwd\<close> raises) and that holds
  no file: the example the discovery theorems are tried on.
\<close>

definition host_without_cwd :: host where
  "host_without_cwd =
     \<lparr>os_environ = Map.empty,
      isfile = (\<lambda>p. False),
      getcwd = Inl (OSError ''No such file or directory''),
      open_file = (\<lambda>p. Inl (OSError ''No such file or directory'')),
      readfp = (\<lambda>file. Inl (ValueError ''File contains no section headers'')),
      caller_path = ''app'',
      recursion_limit = 5\<rparr>"

section \<open>Termination of the lexer's loops\<close>

lemma read_token_loop_consumes:
  "read_token_loop ws st quoted es token ins = Inr (result, quoted', st', ins') \<Longrightarrow>
   length ins' \<le> length ins \<and> (ins \<noteq> [] \<longrightarrow> length ins' < length ins) \<and>
   (ins = [] \<and> st \<noteq> St_None \<longrightarrow> st' = St_None) \<and>
   (st = St_None \<longrightarrow> result = [] \<and> quoted' = quoted)"
proof (induction ws st quoted es token ins arbitrary: result quoted' st' ins'
    rule: read_token_loop.induct)
  case (3 ws quoted es token nextchar ins)
  have "length (readline ins) \<le> length ins"
    by (rule length_readline)
  with 3 show ?case
    by (fastforce split: if_splits)
next
  case (9 ws quoted es token nextchar ins)
  have "length (readline ins) \<le> length ins"
    by (rule length_readline)
  with 9 show ?case
    by (fastforce split: if_splits)
qed (fastforce split: if_splits simp: Let_def)+

definition lexer_measure :: "shlex \<Rightarrow> nat" where
  "lexer_measure lx = 2 * length (instream lx) + (if state lx = St_None then 0 else 1)"

lemma read_token_decreases:
  assumes "read_token lx = Inr (Some s, lx')"
  shows "lexer_measure lx' < lexer_measure lx"
proof -
  from assms obtain result quoted' st' ins' where
    loop: "read_token_loop (whitespace lx) (state lx) False St_space [] (instream lx)
             = Inr (result, quoted', st', ins')"
    and lx': "lx' = lx\<lparr>state := st', instream := ins'\<rparr>"
    and some: "\<not> (\<not> quoted' \<and> result = [])"
    by (auto simp: read_token_def split: sum.splits if_splits)
  note c = read_token_loop_consumes [OF loop]
  show ?thesis
  proof (cases "instream lx = []")
    case True
    with c some have "state lx \<noteq> St_None" by auto
    with c True have "st' = St_None" "ins' = []" by auto
    with True \<open>state lx \<noteq> St_None\<close> lx' show ?thesis
      by (simp add: lexer_measure_def)
  next
    case False
    with c have "length ins' < length (instream lx)" by simp
    with lx' show ?thesis
      by (simp add: lexer_measure_def)
  qed
qed

termination generate
  by (relation "measure (\<lambda>(cst, strp, splitter). lexer_measure splitter)")
     (auto dest: read_token_decreases)

section \<open>Precedence of the environment\<close>

text \<open>
  C1. For every option name present in the host environment, \<open>Config.get\<close> returns the
  environment's value with the cast applied, whatever the active store holds for that
  name and whatever the default; the empty string counts as present.
\<close>

theorem get_environ_precedence:
  "environ option = Some v \<Longrightarrow> get environ self option dflt c = call_cast c (PStr v)"
  by (simp add: get_def)

theorem get_environ_precedence_witness:
  "[''KeyOverrideByEnv'' \<mapsto> ''''] ''KeyOverrideByEnv'' = Some '''' \<and>
   get [''KeyOverrideByEnv'' \<mapsto> '''']
       \<lparr>repository = RepositoryEnv [''KeyOverrideByEnv'' \<mapsto> ''NotThis'']\<rparr>
       ''KeyOverrideByEnv'' (Default (PStr ''x'')) cast_do_nothing = Inr (PStr '''')"
  using get_environ_precedence
    [of "[''KeyOverrideByEnv'' \<mapsto> '''']" "''KeyOverrideByEnv''" "''''"
        "\<lparr>repository = RepositoryEnv [''KeyOverrideByEnv'' \<mapsto> ''NotThis'']\<rparr>"
        "Default (PStr ''x'')" cast_do_nothing]
  by (simp add: call_cast_def cast_do_nothing_def)

section \<open>Missing options and defaults\<close>

text \<open>
  C2. For every option name absent from the host environment and from the active store
  (its \<open>__contains__\<close> is false): without a default (the \<open>Undefined\<close> sentinel)
  \<open>Config.get\<close> fails with \<open>UndefinedValueError\<close>, whose message begins with the
  option's name; with any other default, \<open>None\<close> included, it returns the default with
  the cast applied.
\<close>

theorem get_undefined_or_default:
  "environ option = None \<Longrightarrow> \<not> contains environ (repository self) option \<Longrightarrow>
   get environ self option dflt c =
     (case dflt of
        Undefined \<Rightarrow>
          Inl (UndefinedValueError
            (option @ '' not found. Declare it as envvar or define a default value.''))
      | Default d \<Rightarrow> call_cast c d)"
  by (simp add: get_def split: default.splits)

theorem get_undefined_or_default_witness:
  "Map.empty ''UndefinedKey'' = (None :: string option) \<and>
   \<not> contains Map.empty (repository \<lparr>repository = RepositoryEnv [''KeyEmpty'' \<mapsto> '''']\<rparr>)
        ''UndefinedKey'' \<and>
   get Map.empty \<lparr>repository = RepositoryEnv [''KeyEmpty'' \<mapsto> '''']\<rparr> ''UndefinedKey''
       (Default PNone) cast_do_nothing = Inr PNone"
  using get_undefined_or_default
    [of Map.empty "''UndefinedKey''" "\<lparr>repository = RepositoryEnv [''KeyEmpty'' \<mapsto> '''']\<rparr>"
        "Default PNone" cast_do_nothing]
  by (simp add: call_cast_def cast_do_nothing_def has_key_def)

section \<open>The boolean cast of \<open>Config.get\<close>\<close>

lemma cast_boolean_table: "cast_boolean v = boolean_table (str v)"
  by (auto simp add: cast_boolean_def boolean_table_def strtobool_def Let_def
      bool_str_def bool_int_def false_tokens_def true_tokens_def)

text \<open>
  C3. Called with \<open>bool\<close> as the cast, \<open>Config.get\<close> resolves the raw value as it does
  under the identity cast, stringifies it and maps it by the token table, without regard
  to case: the empty string and n, no, f, false, off, 0 give false; y, yes, t, true, on, 1
  give true; any other string is a \<open>ValueError\<close> that reaches the caller.
\<close>

theorem get_bool_table:
  "get environ self option dflt Bool =
     (case get environ self option dflt cast_do_nothing of
        Inl e \<Rightarrow> Inl e
      | Inr raw \<Rightarrow> boolean_table (str raw))"
  by (simp add: get_def call_cast_def cast_do_nothing_def cast_boolean_table split: sum.splits)

section \<open>Direct lookups in a store\<close>

text \<open>
  C8 (as amended). For every key for which a store's own \<open>__contains__\<close> is false, a
  direct \<open>__getitem__\<close> on \<open>RepositoryEnv\<close> raises \<open>KeyError\<close> and on
  \<open>RepositoryIni\<close> raises \<open>NoOptionError\<close> (or \<open>NoSectionError\<close> when the file has
  no \<open>settings\<close> section); on \<open>RepositoryEmpty\<close> it raises nothing and returns
  \<open>None\<close>.
\<close>

theorem getitem_missing_key:
  "\<not> contains environ repo key \<Longrightarrow>
   (case repo of
      RepositoryEmpty \<Rightarrow> getitem repo key = Inr PNone
    | RepositoryIni parser \<Rightarrow>
        getitem repo key =
          (if has_key (sections parser) SECTION
           then Inl (NoOptionError (optionxform key) SECTION)
           else Inl (NoSectionError SECTION))
    | RepositoryEnv data \<Rightarrow> getitem repo key = Inl (KeyError key))"
  by (cases repo)
     (auto simp: has_key_def has_option_def parser_get_def Let_def map_add_def
           split: option.splits)

theorem getitem_missing_key_witness:
  "\<not> contains Map.empty (RepositoryEnv [''A'' \<mapsto> ''1'']) ''B'' \<and>
   getitem (RepositoryEnv [''A'' \<mapsto> ''1'']) ''B'' = Inl (KeyError ''B'')"
  using getitem_missing_key [of Map.empty "RepositoryEnv [''A'' \<mapsto> ''1'']" "''B''"]
  by (simp add: has_key_def)

text \<open>
  The claim as first stated fails on \<open>RepositoryEmpty\<close>: no key is contained, and the
  lookup of any key returns the placeholder \<open>None\<close>.
\<close>

theorem getitem_empty_counterexample:
  "\<not> contains Map.empty RepositoryEmpty ''UndefinedKey'' \<and>
   getitem RepositoryEmpty ''UndefinedKey'' = Inr PNone \<and>
   \<not> isl (getitem RepositoryEmpty ''UndefinedKey'')"
  by simp

text \<open>
  C10. For every key that the host environment holds and the parsed file does not,
  \<open>RepositoryEnv.__contains__\<close> is true while \<open>RepositoryEnv.__getitem__\<close> raises
  \<open>KeyError\<close>; \<open>Config.get\<close> never reaches that lookup, since it returns the
  environment's value first.
\<close>

theorem env_contains_getitem_inconsistent:
  "environ key = Some v \<Longrightarrow> data key = None \<Longrightarrow>
   contains environ (RepositoryEnv data) key \<and>
   getitem (RepositoryEnv data) key = Inl (KeyError key) \<and>
   get environ \<lparr>repository = RepositoryEnv data\<rparr> key dflt cast_do_nothing = Inr (PStr v)"
  by (simp add: has_key_def get_def call_cast_def cast_do_nothing_def)

theorem env_contains_getitem_inconsistent_witness:
  "[''KeyOnlyEnviron'' \<mapsto> ''''] ''KeyOnlyEnviron'' = Some '''' \<and>
   [''KeyEmpty'' \<mapsto> ''''] ''KeyOnlyEnviron'' = None \<and>
   contains [''KeyOnlyEnviron'' \<mapsto> ''''] (RepositoryEnv [''KeyEmpty'' \<mapsto> ''''])
     ''KeyOnlyEnviron'' \<and>
   getitem (RepositoryEnv [''KeyEmpty'' \<mapsto> '''']) ''KeyOnlyEnviron''
     = Inl (KeyError ''KeyOnlyEnviron'') \<and>
   get [''KeyOnlyEnviron'' \<mapsto> ''''] \<lparr>repository = RepositoryEnv [''KeyEmpty'' \<mapsto> '''']\<rparr>
     ''KeyOnlyEnviron'' Undefined cast_do_nothing = Inr (PStr '''')"
  using env_contains_getitem_inconsistent
    [of "[''KeyOnlyEnviron'' \<mapsto> '''']" "''KeyOnlyEnviron''" "''''"
        "[''KeyEmpty'' \<mapsto> '''']" Undefined]
  by simp

section \<open>Quotes in the line format\<close>

text \<open>
  What \<open>v.strip('\'"')\<close> does to a value inside one pair of quotes: when the interior
  neither starts nor ends with a quote character, exactly the pair goes.
\<close>

lemma strip_quote_pair:
  assumes "mid = [] \<or> (hd mid \<notin> set chars \<and> last mid \<notin> set chars)" and "q \<in> set chars"
  shows "strip_chars chars (q # mid @ [q]) = mid"
proof (cases "mid = []")
  case True
  with assms show ?thesis
    by (simp add: strip_chars_def lstrip_chars_def rstrip_chars_def)
next
  case False
  then obtain a ms where m: "mid = a # ms" by (cases mid) auto
  from False obtain ns b where n: "mid = ns @ [b]" by (cases mid rule: rev_cases) auto
  from assms False m have a: "a \<notin> set chars" by simp
  from assms False n have b: "b \<notin> set chars" by simp
  have "lstrip_chars chars (q # mid @ [q]) = mid @ [q]"
    using assms(2) a m by (simp add: lstrip_chars_def)
  moreover have "rstrip_chars chars (mid @ [q]) = mid"
    using assms(2) b n by (simp add: rstrip_chars_def)
  ultimately show ?thesis by (simp add: strip_chars_def)
qed

text \<open>
  C4. The claim: a value of length at least 2 inside a matching pair of quotes loses
  exactly that pair, the interior staying as it is. On the line \<open>K="'a'"\<close> the code
  stores \<open>a\<close>, not the interior \<open>'a'\<close>: \<open>str.strip\<close> with both quote characters
  removes every leading and trailing quote of either kind.
\<close>

theorem read_env_nested_quotes:
  "read_env Map.empty [''K='' @ [dquote, squote] @ ''a'' @ [squote, dquote]] ''K'' = Some ''a'' \<and>
   Some ''a'' \<noteq> Some ([squote] @ ''a'' @ [squote])"
  by code_simp

text \<open>
  C5 (as amended). For a retained line whose trimmed value is a single quote character
  (\<open>'\<close> or \<open>"\<close>), the guard \<open>len(v) >= 2\<close> keeps the value out of the stripping and
  the stored value is that quote character, unmodified.
\<close>

theorem read_env_lone_quote_kept:
  assumes "l = strip_space line" and "l \<noteq> []" and "\<not> startswith l ''#''"
    and "CHR ''='' \<in> set l"
    and "strip_space (snd (split_first CHR ''='' l)) = [q]"
    and "q = squote \<or> q = dquote"
  shows "read_env data [line] (strip_space (fst (split_first CHR ''='' l))) = Some [q]"
  using assms by (simp add: Let_def split_beta)

theorem read_env_lone_quote_kept_witness:
  "strip_space (''KeyIsSingleQuote='' @ [squote, CHR 0x0A]) = ''KeyIsSingleQuote='' @ [squote] \<and>
   strip_space (snd (split_first CHR ''='' (''KeyIsSingleQuote='' @ [squote]))) = [squote] \<and>
   strip_space (fst (split_first CHR ''='' (''KeyIsSingleQuote='' @ [squote])))
     = ''KeyIsSingleQuote'' \<and>
   read_env Map.empty [''KeyIsSingleQuote='' @ [squote, CHR 0x0A]] ''KeyIsSingleQuote''
     = Some [squote]"
proof -
  have l: "''KeyIsSingleQuote='' @ [squote]
             = strip_space (''KeyIsSingleQuote='' @ [squote, CHR 0x0A])"
    by code_simp
  have v: "strip_space (snd (split_first CHR ''='' (''KeyIsSingleQuote='' @ [squote]))) = [squote]"
    by code_simp
  have k: "strip_space (fst (split_first CHR ''='' (''KeyIsSingleQuote='' @ [squote])))
             = ''KeyIsSingleQuote''"
    by code_simp
  have "read_env Map.empty [''KeyIsSingleQuote='' @ [squote, CHR 0x0A]]
          (strip_space (fst (split_first CHR ''='' (''KeyIsSingleQuote='' @ [squote]))))
          = Some [squote]"
    by (rule read_env_lone_quote_kept [OF l _ _ _ v]) (simp_all add: startswith_def)
  with l v k show ?thesis by simp
qed

text \<open>
  The claim as first stated, that such a value is stripped and stored modified, fails on
  the two lines of the test file: each stores its quote character.
\<close>

theorem read_env_lone_quote_counterexample:
  "read_env Map.empty [''KeyIsSingleQuote='' @ [squote, CHR 0x0A]] ''KeyIsSingleQuote''
     = Some [squote] \<and>
   read_env Map.empty [''KeyIsDoubleQuote='' @ [dquote, CHR 0x0A]] ''KeyIsDoubleQuote''
     = Some [dquote]"
  by code_simp

section \<open>List casting\<close>

text \<open>
  C9. \<open>Csv()\<close> applied to \<open>a, b , c\<close> returns the list a, b, c, each token trimmed;
  applied to \<open>a,"b,c",d\<close> it returns a, \<open>b,c\<close>, d: the double-quoted span is not split
  at the delimiter inside it.
\<close>

theorem Csv_examples:
  "Csv_call Csv_init ''a, b , c'' = Inr [''a'', ''b'', ''c''] \<and>
   Csv_call Csv_init (''a,'' @ [dquote] @ ''b,c'' @ [dquote] @ '',d'')
     = Inr [''a'', ''b,c'', ''d'']"
  by code_simp

section \<open>Discovery\<close>

lemma normpath_sep: "normpath [sep] = [sep]"
  by (simp add: normpath_def startswith_def sep_def)

lemma basename_empty: "basename [] = []"
  by (simp add: basename_def after_last_sep_def)

subsection \<open>The parents form a shortening chain\<close>

lemma upto_after_last_sep: "upto_last_sep p @ after_last_sep p = p"
proof -
  have "rev (takeWhile (\<lambda>c. c \<noteq> sep) (rev p) @ dropWhile (\<lambda>c. c \<noteq> sep) (rev p)) = p"
    by simp
  then show ?thesis
    unfolding upto_last_sep_def after_last_sep_def rev_append .
qed

lemma rstrip_chars_suffix: "\<exists>s. rstrip_chars chars p @ s = p"
proof -
  have "rev (takeWhile (\<lambda>c. c \<in> set chars) (rev p) @ dropWhile (\<lambda>c. c \<in> set chars) (rev p)) = p"
    by simp
  then have "rstrip_chars chars p @ rev (takeWhile (\<lambda>c. c \<in> set chars) (rev p)) = p"
    unfolding rstrip_chars_def rev_append .
  then show ?thesis ..
qed

lemma dirname_prefix: "\<exists>s. dirname p @ s = p"
proof -
  obtain s where "rstrip_chars [sep] (upto_last_sep p) @ s = upto_last_sep p"
    using rstrip_chars_suffix by blast
  then have "rstrip_chars [sep] (upto_last_sep p) @ (s @ after_last_sep p) = p"
    using upto_after_last_sep [of p] by (metis append.assoc)
  moreover have "upto_last_sep p @ after_last_sep p = p"
    by (rule upto_after_last_sep)
  ultimately show ?thesis
    unfolding dirname_def Let_def by (cases "upto_last_sep p \<noteq> [] \<and> upto_last_sep p \<noteq> replicate (length (upto_last_sep p)) sep") auto
qed

lemma upto_last_sep_ends: "upto_last_sep p \<noteq> [] \<Longrightarrow> last (upto_last_sep p) = sep"
proof -
  assume ne: "upto_last_sep p \<noteq> []"
  let ?d = "dropWhile (\<lambda>c. c \<noteq> sep) (rev p)"
  from ne have "?d \<noteq> []" by (simp add: upto_last_sep_def)
  then have "hd ?d = sep" using hd_dropWhile [of "\<lambda>c. c \<noteq> sep" "rev p"] by simp
  with \<open>?d \<noteq> []\<close> show ?thesis
    by (simp add: upto_last_sep_def last_rev)
qed

lemma rstrip_chars_shorter:
  "p \<noteq> [] \<Longrightarrow> last p \<in> set chars \<Longrightarrow> length (rstrip_chars chars p) < length p"
proof -
  assume "p \<noteq> []" and "last p \<in> set chars"
  then obtain q c where p: "p = q @ [c]" and c: "c \<in> set chars"
    by (cases p rule: rev_cases) auto
  have "length (dropWhile (\<lambda>c. c \<in> set chars) (rev q)) \<le> length (rev q)"
    by (rule length_dropWhile_le)
  with p c show ?thesis by (simp add: rstrip_chars_def)
qed

lemma dirname_shorter:
  assumes "p \<noteq> replicate (length p) sep"
  shows "length (dirname p) < length p"
proof -
  let ?h = "upto_last_sep p"
  have split: "?h @ after_last_sep p = p" by (rule upto_after_last_sep)
  then have le: "length ?h \<le> length p"
    by (metis length_append le_add1)
  show ?thesis
  proof (cases "?h \<noteq> [] \<and> ?h \<noteq> replicate (length ?h) sep")
    case True
    then have "last ?h \<in> set [sep]" using upto_last_sep_ends [of p] by simp
    with True have "length (rstrip_chars [sep] ?h) < length ?h"
      by (intro rstrip_chars_shorter) simp_all
    with True le show ?thesis by (simp add: dirname_def Let_def)
  next
    case False
    then have d: "dirname p = ?h" by (auto simp: dirname_def Let_def)
    from False have all: "?h = replicate (length ?h) sep" by auto
    have "after_last_sep p \<noteq> []"
    proof
      assume "after_last_sep p = []"
      with split have "?h = p" by simp
      with all assms show False by simp
    qed
    with split have "length ?h < length p"
      by (metis length_append length_greater_0_conv less_add_same_cancel1)
    with d show ?thesis by simp
  qed
qed

lemma dirname_no_double_sep:
  assumes "\<not> startswith p [sep, sep]"
  shows "\<not> startswith (dirname p) [sep, sep]"
proof
  assume "startswith (dirname p) [sep, sep]"
  then obtain r where "dirname p = sep # sep # r"
    by (cases "dirname p"; cases "tl (dirname p)") (auto simp: startswith_def)
  moreover obtain s where "dirname p @ s = p" using dirname_prefix by blast
  ultimately have "p = sep # sep # (r @ s)" by auto
  with assms show False by (simp add: startswith_def)
qed

lemma all_sep_short:
  assumes "\<not> startswith p [sep, sep]" and "p = replicate (length p) sep"
  shows "p = [] \<or> p = [sep]"
proof -
  from assms(2) have all: "\<forall>c \<in> set p. c = sep"
    by (metis in_set_replicate)
  show ?thesis
  proof (cases p)
    case Nil
    then show ?thesis by simp
  next
    case (Cons a q)
    show ?thesis
    proof (cases q)
      case Nil
      with Cons all show ?thesis by simp
    next
      case (Cons b r)
      with \<open>p = a # q\<close> all have "a = sep" "b = sep" by simp_all
      with Cons \<open>p = a # q\<close> assms(1) show ?thesis by (simp add: startswith_def)
    qed
  qed
qed

text \<open>
  The search returns (it does not end in \<open>RecursionError\<close>) from every path that does
  not begin with two slashes, once the interpreter allows more nested calls than the path
  has characters: each parent is a proper prefix of its child.
\<close>

lemma find_file_returns:
  "\<not> startswith path [sep, sep] \<Longrightarrow> length path < depth \<Longrightarrow> \<exists>f. find_file depth isf path = Inr f"
proof (induction depth arbitrary: path)
  case 0
  then show ?case by simp
next
  case (Suc depth)
  show ?case
  proof (cases "find_in isf path (map fst SUPPORTED)")
    case (Some g)
    then show ?thesis by simp
  next
    case None
    show ?thesis
    proof (cases "dirname path \<noteq> [] \<and> dirname path \<noteq> normpath [sep]")
      case False
      with None show ?thesis by (auto simp: Let_def)
    next
      case True
      have "path \<noteq> replicate (length path) sep"
      proof
        assume a: "path = replicate (length path) sep"
        with Suc.prems(1) have "path = [] \<or> path = [sep]" by (rule all_sep_short)
        then have "dirname path = [] \<or> dirname path = [sep]"
          by (auto simp: dirname_def upto_last_sep_def Let_def)
        with True show False by (simp add: normpath_def startswith_def sep_def)
      qed
      then have "length (dirname path) < length path" by (rule dirname_shorter)
      with Suc.prems(2) have "length (dirname path) < depth" by simp
      moreover from Suc.prems(1) have "\<not> startswith (dirname path) [sep, sep]"
        by (rule dirname_no_double_sep)
      ultimately obtain f where "find_file depth isf (dirname path) = Inr f"
        using Suc.IH by blast
      with None True show ?thesis by (simp add: Let_def)
    qed
  qed
qed

subsection \<open>The root as an ancestor\<close>

text \<open>
  C6. The claim: the upward search reports not found only after every ancestor of the
  starting directory, up to and including the root, has been examined. From \<open>/a\<close>,
  with \<open>/.env\<close> the only file, \<open>_find_file\<close> returns the empty name: the root is
  the parent of \<open>/a\<close> and holds a supported file, but the test
  \<open>parent != os.path.abspath(os.sep)\<close> ends the recursion one level early, under the
  comment that the root was reached without finding any files. Started at the root
  itself, the same search finds the file.
\<close>

theorem find_file_skips_root:
  "find_file 10 (\<lambda>p. p = ''/.env'') ''/a'' = Inr [] \<and>
   dirname ''/a'' = ''/'' \<and>
   find_in (\<lambda>p. p = ''/.env'') ''/'' (map fst SUPPORTED) = Some ''/.env'' \<and>
   find_file 10 (\<lambda>p. p = ''/.env'') ''/'' = Inr ''/.env''"
  by code_simp

text \<open>
  C7. Whenever the body of the \<open>try\<close> in \<open>_load\<close> raises (any error of
  \<open>os.path.abspath\<close> or of the upward search), \<open>_load\<close> builds a \<open>Config\<close> over
  \<open>RepositoryEmpty\<close>, and the first \<open>AutoConfig.__call__\<close> answers as that \<open>Config\<close>
  does: the error of the discovery does not reach the caller.
\<close>

theorem load_discovery_error:
  "find_file_abspath h (start_path h self) = Inl e \<Longrightarrow> config self = None \<Longrightarrow>
   load h self (start_path h self)
     = Inr (self\<lparr>config := Some \<lparr>repository = RepositoryEmpty\<rparr>\<rparr>) \<and>
   AutoConfig_call h self option dflt c =
     (get (os_environ h) \<lparr>repository = RepositoryEmpty\<rparr> option dflt c,
      self\<lparr>config := Some \<lparr>repository = RepositoryEmpty\<rparr>\<rparr>)"
  by (simp add: load_def AutoConfig_call_def basename_empty SUPPORTED_def construct_def
      RepositoryEmpty_init_def)

theorem load_discovery_error_witness:
  "find_file_abspath host_without_cwd
     (start_path host_without_cwd \<lparr>search_path = None, config = None\<rparr>)
     = Inl (OSError ''No such file or directory'') \<and>
   AutoConfig_call host_without_cwd \<lparr>search_path = None, config = None\<rparr>
     ''DEBUG'' (Default (PStr ''off'')) Bool =
     (Inr (PBool False),
      \<lparr>search_path = None, config = Some \<lparr>repository = RepositoryEmpty\<rparr>\<rparr>)"
proof -
  have h: "find_file_abspath host_without_cwd
             (start_path host_without_cwd \<lparr>search_path = None, config = None\<rparr>)
             = Inl (OSError ''No such file or directory'')"
    by (simp add: find_file_abspath_def start_path_def host_without_cwd_def abspath_def
        isabs_def startswith_def sep_def)
  have g: "get (os_environ host_without_cwd) \<lparr>repository = RepositoryEmpty\<rparr>
             ''DEBUG'' (Default (PStr ''off'')) Bool = Inr (PBool False)"
    by code_simp
  from load_discovery_error [OF h, of "''DEBUG''" "Default (PStr ''off'')" Bool] g h
  show ?thesis by simp
qed

end
